theory Spec2Isabelle
  imports Complex_Main "HOL-Library.Multiset"
begin

section \<open>Values of the benchmark front end\<close>

text \<open>
  The development follows the richest variant of the application, the component
  \<^verbatim>\<open>App\<close> in the second half of \<^verbatim>\<open>src/src/oldApp.jsx\<close> (scoring, message
  listener, history, persistence, DNS probe and \<^verbatim>\<open>runBenchmark\<close>).
  \<^verbatim>\<open>src/src/App.jsx\<close> has the same \<^verbatim>\<open>scoreOne\<close> and \<^verbatim>\<open>averageScore\<close>.

  A JavaScript string is a sequence of UTF-16 code units, here a list of naturals.
  A JavaScript number that carries a measurement is taken as an exact rational:
  every finite double is a rational, and the rounding error of double arithmetic,
  \<^verbatim>\<open>NaN\<close> and the infinities are not part of this model.
\<close>

type_synonym jsstring = "nat list"

definition lit :: "string \<Rightarrow> jsstring" where
  "lit s = map of_char s"

text \<open>
  The message a benchmark window posts (\<^verbatim>\<open>event.data\<close>). The field \<^verbatim>\<open>type\<close>
  is \<open>mtype\<close> and the field \<^verbatim>\<open>runId\<close> is \<open>mrunId\<close> here; \<open>None\<close> stands for
  \<^verbatim>\<open>null\<close>.
\<close>

record message =
  mtype :: jsstring
  mrunId :: "nat option"
  index :: int
  site :: jsstring
  loadTime :: rat
  cpuTime :: rat
  networkLatency :: rat
  memoryUsage :: rat

text \<open>The object built on completion; \<^verbatim>\<open>id\<close> is \<open>rid\<close>, \<^verbatim>\<open>at\<close> is \<open>at_time\<close>, \<^verbatim>\<open>results\<close> is \<open>rec_results\<close>.\<close>

record run_record =
  rid :: "nat option"
  at_time :: jsstring
  computer :: jsstring
  finalScore :: int
  rec_results :: "message list"

datatype resolver = Cloudflare | Google

record dns_probe =
  cloudflareMs :: int
  googleMs :: int
  recommended :: resolver

section \<open>Scoring\<close>

text \<open>
  \<^verbatim>\<open>Math.round\<close> returns the integer nearest to its argument and rounds a tie
  towards plus infinity; \<^verbatim>\<open>Math.max\<close> of two numbers is the larger one.
\<close>

definition Math_round :: "rat \<Rightarrow> int" where
  "Math_round x = \<lfloor>x + 1 / 2\<rfloor>"

definition Math_max :: "int \<Rightarrow> int \<Rightarrow> int" where
  "Math_max a b = (if a < b then b else a)"

text \<open>
  \<^verbatim>\<open>
  function scoreOne({ loadTime, cpuTime, networkLatency, memoryUsage }) {
    const raw =
      1000 -
      (0.4 * loadTime + 0.3 * cpuTime + 0.2 * networkLatency + 0.1 * memoryUsage);
    return Math.max(0, Math.round(raw));
  }
  function averageScore(items) {
    if (!items.length) return 0;
    return Math.round(items.reduce((acc, it) => acc + scoreOne(it), 0) / items.length);
  }
  \<close>
\<close>

definition scoreOne :: "message \<Rightarrow> int" where
  "scoreOne m =
     (let raw = 1000 -
        (4 / 10 * loadTime m + 3 / 10 * cpuTime m + 2 / 10 * networkLatency m
           + 1 / 10 * memoryUsage m)
      in Math_max 0 (Math_round raw))"

definition averageScore :: "message list \<Rightarrow> int" where
  "averageScore items =
     (if length items = 0 then 0
      else Math_round
             (of_int (foldl (\<lambda>acc it. acc + scoreOne it) 0 items) / of_nat (length items)))"

text \<open>A measurement with the given four metrics, for stating examples.\<close>

definition measurement :: "rat \<Rightarrow> rat \<Rightarrow> rat \<Rightarrow> rat \<Rightarrow> message" where
  "measurement l c n u =
     \<lparr>mtype = lit ''benchmarkResult'', mrunId = None, index = 0, site = [],
      loadTime = l, cpuTime = c, networkLatency = n, memoryUsage = u\<rparr>"

text \<open>
  The weighted cost the specification subtracts from 1000, and the measurement whose
  metrics are the arithmetic means of the metrics of a sequence (used only to compare
  the mean of the scores with the score of the mean).
\<close>

definition weighted_cost :: "message \<Rightarrow> rat" where
  "weighted_cost m =
     4 / 10 * loadTime m + 3 / 10 * cpuTime m + 2 / 10 * networkLatency m
       + 1 / 10 * memoryUsage m"

definition mean_metrics :: "message list \<Rightarrow> message" where
  "mean_metrics items =
     measurement (sum_list (map loadTime items) / of_nat (length items))
                 (sum_list (map cpuTime items) / of_nat (length items))
                 (sum_list (map networkLatency items) / of_nat (length items))
                 (sum_list (map memoryUsage items) / of_nat (length items))"

section \<open>Strings and the site list\<close>

text \<open>
  \<^verbatim>\<open>String.prototype.trim\<close> strips the code units that are WhiteSpace or
  LineTerminator: TAB, LF, VT, FF, CR, SPACE, NBSP, U+1680, U+2000 to U+200A, U+2028,
  U+2029, U+202F, U+205F, U+3000 and U+FEFF.
\<close>

definition is_ws :: "nat \<Rightarrow> bool" where
  "is_ws c \<longleftrightarrow>
     c \<in> set [9, 10, 11, 12, 13, 32, 160, 5760, 8232, 8233, 8239, 8287, 12288, 65279]
     \<or> (8192 \<le> c \<and> c \<le> 8202)"

definition trim :: "jsstring \<Rightarrow> jsstring" where
  "trim s = rev (dropWhile is_ws (rev (dropWhile is_ws s)))"

text \<open>\<^verbatim>\<open>str.split("\n")\<close>: the pieces between line feeds (code unit 10), at least one.\<close>

fun split_nl :: "jsstring \<Rightarrow> jsstring list" where
  "split_nl [] = [[]]"
| "split_nl (c # cs) =
     (if c = 10 then [] # split_nl cs
      else (case split_nl cs of [] \<Rightarrow> [[c]] | w # ws \<Rightarrow> (c # w) # ws))"



section \<open>Component state\<close>

text \<open>
  The React state of \<^verbatim>\<open>App\<close>: the \<^verbatim>\<open>useState\<close> cells and the ref
  \<^verbatim>\<open>expectedCountRef.current\<close> (\<open>expectedCount\<close>). The message listener is
  re-registered whenever \<^verbatim>\<open>runId\<close> or \<^verbatim>\<open>computerName\<close> changes, so the values it
  closes over are the ones of the state in which the message arrives.
\<close>

record state =
  computerName :: jsstring
  started :: bool
  results :: "message list"
  history :: "run_record list"
  runId :: "nat option"
  expectedCount :: nat
  dnsProbe :: "dns_probe option"
  siteText :: jsstring


text \<open>
  \<^verbatim>\<open>
  const sites = useMemo(
    () => siteText.split("\n").map((s) => s.trim()).filter(Boolean), [siteText]);
  \<close>
  A string is truthy when it is not empty.
\<close>

definition sites :: "state \<Rightarrow> jsstring list" where
  "sites s = filter (\<lambda>x. x \<noteq> []) (map trim (split_nl (siteText s)))"

text \<open>\<^verbatim>\<open>expectations.loadTimeMs\<close>.\<close>

definition loadTimeMs :: rat where
  "loadTimeMs = 1000"

text \<open>
  What a handler does besides updating the state cells above: \<^verbatim>\<open>alert(text)\<close>,
  \<^verbatim>\<open>window.open\<close> of the benchmark page for a site with a run id and an ordinal,
  \<^verbatim>\<open>setHistory\<close> with a freshly built run record (the update itself is also applied
  to \<open>history\<close>), and the call of \<^verbatim>\<open>runDnsProbe()\<close>, whose promise settles later.
\<close>

datatype effect =
    Alert jsstring
  | WindowOpen jsstring nat nat
  | AppendHistory run_record
  | RunDnsProbe

section \<open>The message listener\<close>

text \<open>
  \<^verbatim>\<open>
  function onMessage(event) {
    const data = event.data;
    if (!data || data.type !== "benchmarkResult") return;
    if (data.runId !== runId) return;
    setResults((prev) => {
      if (prev.some((p) => p.index === data.index)) return prev;
      const next = [...prev, data];
      if (next.length === expectedCountRef.current) {
        const finalScore = averageScore(next);
        const runRecord = { id: runId, at: new Date(runId).toLocaleString(),
          computer: computerName, finalScore,
          results: next.sort((a, b) => a.index - b.index) };
        setHistory((old) => [runRecord, ...old].slice(0, 5));
        const anySlow = next.some((r) => r.loadTime > expectations.loadTimeMs);
        if (anySlow) {
          runDnsProbe().then(setDnsProbe).catch(() => setDnsProbe(null));
        } else {
          setDnsProbe(null);
        }
      }
      return next;
    });
  }
  \<close>
  \<open>None\<close> is a falsy \<^verbatim>\<open>event.data\<close>. \<^verbatim>\<open>Array.prototype.sort\<close> is stable and sorts
  \<^verbatim>\<open>next\<close> in place, so the array returned to \<^verbatim>\<open>setResults\<close> is the sorted one. The
  locale-dependent \<^verbatim>\<open>new Date(runId).toLocaleString()\<close> is the parameter \<open>fmt\<close>.
\<close>

definition onMessage :: "(nat option \<Rightarrow> jsstring) \<Rightarrow> state \<Rightarrow> message option \<Rightarrow> state \<times> effect list" where
  "onMessage fmt s ev =
     (case ev of
        None \<Rightarrow> (s, [])
      | Some data \<Rightarrow>
          if mtype data \<noteq> lit ''benchmarkResult'' then (s, [])
          else if mrunId data \<noteq> runId s then (s, [])
          else if list_ex (\<lambda>p. index p = index data) (results s) then (s, [])
          else
            let next = results s @ [data] in
            if length next = expectedCount s then
              let finalScore = averageScore next;
                  ordered = sort_key index next;
                  runRecord = \<lparr>rid = runId s, at_time = fmt (runId s), computer = computerName s,
                               finalScore = finalScore, rec_results = ordered\<rparr>;
                  anySlow = list_ex (\<lambda>r. loadTime r > loadTimeMs) ordered
              in if anySlow
                 then (s\<lparr>results := ordered, history := take 5 (runRecord # history s)\<rparr>,
                       [AppendHistory runRecord, RunDnsProbe])
                 else (s\<lparr>results := ordered, history := take 5 (runRecord # history s),
                         dnsProbe := None\<rparr>,
                       [AppendHistory runRecord])
            else (s\<lparr>results := next\<rparr>, []))"

section \<open>Starting a run\<close>

text \<open>
  \<^verbatim>\<open>
  function runBenchmark() {
    if (!computerName.trim()) {
      alert("Please enter a computer name before running the benchmark.");
      return;
    }
    if (sites.length < 1) {
      alert("Add at least one test URL in the Site List.");
      return;
    }
    setDnsProbe(null);
    const shuffled = [...sites].sort(() => 0.5 - Math.random());
    const selected = shuffled.slice(0, Math.min(5, shuffled.length));
    const id = Date.now();
    setRunId(id);
    setStarted(true);
    setResults([]);
    expectedCountRef.current = selected.length;
    selected.forEach((site, index) => {
      const url = `/benchmark.html?site=${encodeURIComponent(site)}&runId=${id}&index=${index}`;
      window.open(url, "_blank", "width=420,height=420");
    });
  }
  \<close>
  The environment of one call: \<open>now\<close> is the value of \<^verbatim>\<open>Date.now()\<close>, and \<open>shuffle\<close>
  is what sorting a copy of the list with the random comparator returns.
\<close>

record env =
  now :: nat
  shuffle :: "jsstring list \<Rightarrow> jsstring list"

definition runBenchmark :: "env \<Rightarrow> state \<Rightarrow> state \<times> effect list" where
  "runBenchmark e s =
     (if trim (computerName s) = [] then
        (s, [Alert (lit ''Please enter a computer name before running the benchmark.'')])
      else if length (sites s) < 1 then
        (s, [Alert (lit ''Add at least one test URL in the Site List.'')])
      else
        let shuffled = shuffle e (sites s);
            selected = take (min 5 (length shuffled)) shuffled;
            id = now e
        in (s\<lparr>dnsProbe := None, runId := Some id, started := True, results := [],
              expectedCount := length selected\<rparr>,
            map (\<lambda>(site, index). WindowOpen site id index)
                (zip selected [0..<length selected])))"

section \<open>Event sequences\<close>

text \<open>
  The things that happen to the mounted component: a click on the Benchmark button, a
  \<^verbatim>\<open>message\<close> event, the settling of a probe promise (\<open>None\<close> when it rejects), and
  edits of the two inputs.
\<close>

datatype event =
    Click env
  | Message "message option"
  | ProbeSettled "dns_probe option"
  | SetComputerName jsstring
  | SetSiteText jsstring

fun step :: "(nat option \<Rightarrow> jsstring) \<Rightarrow> state \<Rightarrow> event \<Rightarrow> state \<times> effect list" where
  "step fmt s (Click e) = runBenchmark e s"
| "step fmt s (Message ev) = onMessage fmt s ev"
| "step fmt s (ProbeSettled r) = (s\<lparr>dnsProbe := r\<rparr>, [])"
| "step fmt s (SetComputerName n) = (s\<lparr>computerName := n\<rparr>, [])"
| "step fmt s (SetSiteText t) = (s\<lparr>siteText := t\<rparr>, [])"

fun run :: "(nat option \<Rightarrow> jsstring) \<Rightarrow> state \<Rightarrow> event list \<Rightarrow> state \<times> effect list" where
  "run fmt s [] = (s, [])"
| "run fmt s (ev # evs) =
     (case step fmt s ev of (s1, out1) \<Rightarrow>
        (case run fmt s1 evs of (s2, out2) \<Rightarrow> (s2, out1 @ out2)))"

text \<open>The run records handed to \<^verbatim>\<open>setHistory\<close>, in the order of the calls.\<close>

fun completions :: "effect list \<Rightarrow> run_record list" where
  "completions [] = []"
| "completions (AppendHistory r # out) = r # completions out"
| "completions (_ # out) = completions out"


section \<open>Persistence\<close>












section \<open>Concrete inputs for the examples\<close>

text \<open>
  A formatter of dates, a clock value with the comparator outcome that reverses the
  list, an operator who typed the name \<^verbatim>\<open>pc\<close> and a site list, and a result message
  with a run id, an ordinal and a load time.
\<close>

definition demo_fmt :: "nat option \<Rightarrow> jsstring" where
  "demo_fmt t = (case t of None \<Rightarrow> [] | Some k \<Rightarrow> [48 + k])"

definition demo_env :: "nat \<Rightarrow> env" where
  "demo_env t = \<lparr>now = t, shuffle = rev\<rparr>"

definition demo_state :: "jsstring \<Rightarrow> state" where
  "demo_state pool =
     \<lparr>computerName = [112, 99], started = False, results = [], history = [], runId = None,
      expectedCount = 0, dnsProbe = None, siteText = pool\<rparr>"

definition demo_msg :: "nat \<Rightarrow> int \<Rightarrow> rat \<Rightarrow> message" where
  "demo_msg t i l =
     \<lparr>mtype = lit ''benchmarkResult'', mrunId = Some t, index = i, site = [97],
      loadTime = l, cpuTime = 0, networkLatency = 0, memoryUsage = 0\<rparr>"

text \<open>One run on a pool of one site: the click at time \<open>t\<close>, then its only result.\<close>

definition demo_round :: "nat \<Rightarrow> event list" where
  "demo_round t = [Click (demo_env t), Message (Some (demo_msg t 0 0))]"

definition demo_record :: "nat \<Rightarrow> run_record" where
  "demo_record t =
     \<lparr>rid = Some t, at_time = [48 + t], computer = [112, 99], finalScore = 1000,
      rec_results = [demo_msg t 0 0]\<rparr>"


section \<open>Auxiliary facts\<close>

lemma Math_round_eq_round: "Math_round x = round x"
  by (simp add: Math_round_def round_def)

lemma Math_max_eq_max: "Math_max a b = max a b"
  by (simp add: Math_max_def max_def)

lemma scoreOne_eq: "scoreOne m = max 0 (round (1000 - weighted_cost m))"
  by (simp add: scoreOne_def weighted_cost_def Math_round_eq_round Math_max_eq_max)

lemma foldl_add_scores:
  "foldl (\<lambda>acc it. acc + scoreOne it) a items = a + sum_list (map scoreOne items)"
  by (induction items arbitrary: a) simp_all

lemma weighted_cost_mono:
  "loadTime m1 \<le> loadTime m2 \<Longrightarrow> cpuTime m1 \<le> cpuTime m2 \<Longrightarrow>
   networkLatency m1 \<le> networkLatency m2 \<Longrightarrow> memoryUsage m1 \<le> memoryUsage m2 \<Longrightarrow>
   weighted_cost m1 \<le> weighted_cost m2"
  unfolding weighted_cost_def by (intro add_mono mult_left_mono) simp_all

lemma trim_Nil_iff: "trim s = [] \<longleftrightarrow> (\<forall>c\<in>set s. is_ws c)"
proof
  assume "trim s = []"
  then have a: "\<forall>x\<in>set (dropWhile is_ws s). is_ws x"
    by (simp add: trim_def)
  have "dropWhile is_ws s = []"
  proof (rule ccontr)
    assume n: "dropWhile is_ws s \<noteq> []"
    then have "\<not> is_ws (hd (dropWhile is_ws s))" by (rule hd_dropWhile)
    moreover have "hd (dropWhile is_ws s) \<in> set (dropWhile is_ws s)" using n by simp
    ultimately show False using a by blast
  qed
  then show "\<forall>c\<in>set s. is_ws c" by simp
next
  assume "\<forall>c\<in>set s. is_ws c"
  then have d: "dropWhile is_ws s = []" by simp
  have "trim s = rev (dropWhile is_ws (rev []))" by (simp only: trim_def d)
  then show "trim s = []" by simp
qed

lemma runBenchmark_ok:
  assumes "trim (computerName s) \<noteq> []" and "sites s \<noteq> []"
  shows "runBenchmark e s =
     (s\<lparr>dnsProbe := None, runId := Some (now e), started := True, results := [],
        expectedCount := min 5 (length (shuffle e (sites s)))\<rparr>,
      map (\<lambda>(u, k). WindowOpen u (now e) k)
        (zip (take 5 (shuffle e (sites s))) [0..<min 5 (length (shuffle e (sites s)))]))"
proof -
  have "0 < length (sites s)" using assms(2) by simp
  then have "\<not> length (sites s) < 1" by simp
  then show ?thesis using assms(1)
    by (simp add: runBenchmark_def Let_def min_def)
qed

lemma completions_append: "completions (a @ b) = completions a @ completions b"
  by (induction a rule: completions.induct) simp_all

lemma completions_WindowOpen:
  "completions (map (\<lambda>(u, k). WindowOpen u i k) xs) = []"
  by (induction xs) auto


lemma onMessage_present:
  assumes "list_ex (\<lambda>p. index p = index m) (results s)"
  shows "onMessage fmt s (Some m) = (s, [])"
  using assms by (simp add: onMessage_def)

lemma onMessage_fresh:
  assumes "mtype m = lit ''benchmarkResult''" and "mrunId m = runId s"
    and "\<not> list_ex (\<lambda>p. index p = index m) (results s)"
    and "onMessage fmt s (Some m) = (s1, out1)"
  shows "set (results s1) = insert m (set (results s))"
    and "length (results s1) = Suc (length (results s))"
    and "runId s1 = runId s" and "expectedCount s1 = expectedCount s"
    and "length (completions out1) = (if Suc (length (results s)) = expectedCount s then 1 else 0)"
  using assms by (auto simp add: onMessage_def Let_def split: if_splits)

lemma onMessage_history:
  assumes "onMessage fmt s ev = (s1, out1)"
  shows "history s1 =
     (if completions out1 = [] then history s
      else take 5 (rev (completions out1) @ history s))"
  using assms by (cases ev) (auto simp add: onMessage_def Let_def split: if_splits)

lemma runBenchmark_history:
  assumes "runBenchmark e s = (s1, out1)"
  shows "history s1 = history s \<and> completions out1 = []"
  using assms by (auto simp add: runBenchmark_def Let_def completions_WindowOpen split: if_splits)

lemma step_history:
  assumes "step fmt s ev = (s1, out1)"
  shows "history s1 =
     (if completions out1 = [] then history s
      else take 5 (rev (completions out1) @ history s))"
proof (cases ev)
  case (Click e)
  then show ?thesis using assms runBenchmark_history [of e s s1 out1] by simp
next
  case (Message d)
  then show ?thesis using assms onMessage_history [of fmt s d s1 out1] by simp
qed (use assms in auto)

lemma take_take_append: "take 5 (ys @ take 5 xs) = take 5 (ys @ (xs::'a list))"
  by (simp add: take_all_iff min_def)

lemma run_history:
  "run fmt s evs = (s', out) \<Longrightarrow>
   history s' =
     (if completions out = [] then history s
      else take 5 (rev (completions out) @ history s))"
proof (induction evs arbitrary: s s' out)
  case Nil
  then show ?case by simp
next
  case (Cons ev evs)
  obtain s1 out1 where st: "step fmt s ev = (s1, out1)" by (cases "step fmt s ev")
  obtain s2 out2 where rn: "run fmt s1 evs = (s2, out2)" by (cases "run fmt s1 evs")
  from Cons.prems st rn have eq: "s' = s2" "out = out1 @ out2" by simp_all
  have h1: "history s1 =
     (if completions out1 = [] then history s
      else take 5 (rev (completions out1) @ history s))"
    using st by (rule step_history)
  have h2: "history s2 =
     (if completions out2 = [] then history s1
      else take 5 (rev (completions out2) @ history s1))"
    using rn by (rule Cons.IH)
  show ?case
  proof (cases "completions out2 = []")
    case True
    then show ?thesis using h1 h2 eq by (simp add: completions_append)
  next
    case False
    show ?thesis
    proof (cases "completions out1 = []")
      case True
      then show ?thesis using False h1 h2 eq by (simp add: completions_append)
    next
      case c1: False
      have "history s2 = take 5 (rev (completions out2) @ take 5 (rev (completions out1) @ history s))"
        using False c1 h1 h2 by simp
      also have "\<dots> = take 5 (rev (completions out2) @ rev (completions out1) @ history s)"
        by (rule take_take_append)
      finally show ?thesis using False eq by (simp add: completions_append)
    qed
  qed
qed

lemma deliver_accepted:
  assumes "\<forall>m\<in>set ms. mtype m = lit ''benchmarkResult'' \<and> mrunId m = runId s"
    and "inj_on index (set (results s) \<union> set ms)"
    and "distinct (results s)"
    and "run fmt s (map (\<lambda>m. Message (Some m)) ms) = (s', out)"
  shows "set (results s') = set (results s) \<union> set ms \<and> distinct (results s')
     \<and> runId s' = runId s \<and> expectedCount s' = expectedCount s
     \<and> length (completions out) =
         (if length (results s) < expectedCount s \<and> expectedCount s \<le> length (results s')
          then 1 else 0)"
  using assms
proof (induction ms arbitrary: s s' out)
  case Nil
  then show ?case by simp
next
  case (Cons m ms)
  have acc: "mtype m = lit ''benchmarkResult''" "mrunId m = runId s"
    using Cons.prems(1) by simp_all
  have inj: "inj_on index (set (results s) \<union> set (m # ms))" by (rule Cons.prems(2))
  show ?case
  proof (cases "m \<in> set (results s)")
    case True
    then have "list_ex (\<lambda>p. index p = index m) (results s)"
      by (auto simp add: list_ex_iff)
    then have st: "onMessage fmt s (Some m) = (s, [])" by (rule onMessage_present)
    have rn: "run fmt s (map (\<lambda>m. Message (Some m)) ms) = (s', out)"
      using Cons.prems(4) st by (simp split: prod.splits)
    have inj': "inj_on index (set (results s) \<union> set ms)"
      using inj by (rule inj_on_subset) auto
    have "set (results s') = set (results s) \<union> set ms \<and> distinct (results s')
     \<and> runId s' = runId s \<and> expectedCount s' = expectedCount s
     \<and> length (completions out) =
         (if length (results s) < expectedCount s \<and> expectedCount s \<le> length (results s')
          then 1 else 0)"
      using Cons.prems(1) inj' Cons.prems(3) rn by (intro Cons.IH) simp_all
    then show ?thesis using True by auto
  next
    case False
    have fresh: "\<not> list_ex (\<lambda>p. index p = index m) (results s)"
    proof
      assume "list_ex (\<lambda>p. index p = index m) (results s)"
      then obtain p where p: "p \<in> set (results s)" "index p = index m"
        by (auto simp add: list_ex_iff)
      have "p \<in> set (results s) \<union> set (m # ms)" "m \<in> set (results s) \<union> set (m # ms)"
        using p(1) by simp_all
      with inj p(2) have "p = m" by (rule inj_onD [OF _ _])
      then show False using p False by simp
    qed
    obtain s1 out1 where st: "onMessage fmt s (Some m) = (s1, out1)"
      by (cases "onMessage fmt s (Some m)")
    obtain s2 out2 where rn: "run fmt s1 (map (\<lambda>m. Message (Some m)) ms) = (s2, out2)"
      by (cases "run fmt s1 (map (\<lambda>m. Message (Some m)) ms)")
    from Cons.prems(4) st rn have eq: "s' = s2" "out = out1 @ out2" by simp_all
    note f = onMessage_fresh [OF acc fresh st]
    have d1: "distinct (results s1)"
    proof -
      have "card (set (results s1)) = Suc (card (set (results s)))"
        using f(1) False by simp
      also have "\<dots> = length (results s1)"
        using Cons.prems(3) f(2) by (simp add: distinct_card)
      finally show ?thesis by (simp add: card_distinct)
    qed
    have a1: "\<forall>m\<in>set ms. mtype m = lit ''benchmarkResult'' \<and> mrunId m = runId s1"
      using Cons.prems(1) f(3) by simp
    have "set (results s1) \<union> set ms = set (results s) \<union> set (m # ms)"
      using f(1) by auto
    with inj have i1: "inj_on index (set (results s1) \<union> set ms)"
      by (simp only:)
    have ih: "set (results s2) = set (results s1) \<union> set ms \<and> distinct (results s2)
     \<and> runId s2 = runId s1 \<and> expectedCount s2 = expectedCount s1
     \<and> length (completions out2) =
         (if length (results s1) < expectedCount s1 \<and> expectedCount s1 \<le> length (results s2)
          then 1 else 0)"
      using a1 i1 d1 rn by (rule Cons.IH)
    have "card (set (results s1)) \<le> card (set (results s2))"
      using ih by (intro card_mono) auto
    moreover have "card (set (results s1)) = length (results s1)"
      using d1 by (rule distinct_card)
    moreover have "card (set (results s2)) = length (results s2)"
      using ih by (intro distinct_card) simp
    ultimately have mono: "length (results s1) \<le> length (results s2)"
      by simp
    show ?thesis
      using ih f eq mono by (auto simp add: completions_append)
  qed
qed






lemma is_ws_examples:
  "is_ws 32" "is_ws 9" "is_ws 160" "\<not> is_ws 97" "\<not> is_ws 98" "\<not> is_ws 112" "\<not> is_ws 99"
  by (simp_all add: is_ws_def)

lemma demo_name: "trim (computerName (demo_state pool)) \<noteq> []"
  by (simp add: trim_Nil_iff demo_state_def is_ws_examples)

lemma demo_sites:
  "sites (demo_state [97]) = [[97]]"
  "sites (demo_state [97, 10, 98]) = [[97], [98]]"
  "sites (demo_state [97, 10, 97]) = [[97], [97]]"
  "sites (demo_state [32, 10, 9]) = []"
  by (simp_all add: sites_def demo_state_def trim_def is_ws_examples)

lemma run_append:
  "run fmt s (a @ b) =
     (case run fmt s a of (s1, out1) \<Rightarrow>
        (case run fmt s1 b of (s2, out2) \<Rightarrow> (s2, out1 @ out2)))"
  by (induction a arbitrary: s) (auto split: prod.splits)

lemma averageScore_demo: "averageScore [demo_msg t 0 0] = 1000"
  by (simp add: averageScore_def scoreOne_eq weighted_cost_def demo_msg_def Math_round_eq_round)

lemma demo_round_run:
  assumes "computerName s = [112, 99]" and "siteText s = [97]"
  shows "run demo_fmt s (demo_round t) =
     (s\<lparr>dnsProbe := None, runId := Some t, started := True,
        results := [demo_msg t 0 0], expectedCount := 1,
        history := take 5 (demo_record t # history s)\<rparr>,
      [WindowOpen [97] t 0, AppendHistory (demo_record t)])"
proof -
  have n: "trim (computerName s) \<noteq> []"
    using assms(1) by (simp add: trim_Nil_iff is_ws_examples)
  have p: "sites s = [[97]]"
    using assms(2) by (simp add: sites_def trim_def is_ws_examples)
  then have q: "sites s \<noteq> []" by simp
  have c: "runBenchmark (demo_env t) s =
     (s\<lparr>dnsProbe := None, runId := Some t, started := True, results := [],
        expectedCount := 1\<rparr>, [WindowOpen [97] t 0])"
    by (simp add: runBenchmark_ok [OF n q] p demo_env_def)
  have m: "onMessage demo_fmt
      (s\<lparr>dnsProbe := None, runId := Some t, started := True, results := [],
        expectedCount := 1\<rparr>) (Some (demo_msg t 0 0)) =
     (s\<lparr>dnsProbe := None, runId := Some t, started := True,
        results := [demo_msg t 0 0], expectedCount := 1,
        history := take 5 (demo_record t # history s)\<rparr>,
      [AppendHistory (demo_record t)])"
    using assms(1)
    by (simp add: onMessage_def Let_def averageScore_demo demo_record_def demo_fmt_def
        loadTimeMs_def)
       (simp add: demo_msg_def)
  show ?thesis
    by (simp only: demo_round_def run.simps step.simps c m prod.case append.simps append_Nil2)
qed

lemma demo_rounds_completions:
  assumes "computerName s = [112, 99]" and "siteText s = [97]"
  shows "completions (snd (run demo_fmt s (concat (map demo_round ts)))) = map demo_record ts"
  using assms
proof (induction ts arbitrary: s)
  case Nil
  then show ?case by simp
next
  case (Cons t ts)
  let ?s1 = "s\<lparr>dnsProbe := None, runId := Some t, started := True,
        results := [demo_msg t 0 0], expectedCount := 1,
        history := take 5 (demo_record t # history s)\<rparr>"
  have r: "run demo_fmt s (demo_round t) =
     (?s1, [WindowOpen [97] t 0, AppendHistory (demo_record t)])"
    using Cons.prems by (rule demo_round_run)
  obtain s2 out2 where rn: "run demo_fmt ?s1 (concat (map demo_round ts)) = (s2, out2)"
    by (cases "run demo_fmt ?s1 (concat (map demo_round ts))")
  have "completions (snd (run demo_fmt ?s1 (concat (map demo_round ts)))) = map demo_record ts"
    using Cons.prems by (intro Cons.IH) simp_all
  then have ih: "completions out2 = map demo_record ts"
    by (simp only: rn snd_conv)
  have "run demo_fmt s (concat (map demo_round (t # ts))) =
      (s2, [WindowOpen [97] t 0, AppendHistory (demo_record t)] @ out2)"
    by (simp only: list.map concat.simps run_append r rn prod.case)
  then show ?case
    by (simp add: ih)
qed

lemma demo_start2:
  "runBenchmark (demo_env t) (demo_state [97, 10, 98]) =
     ((demo_state [97, 10, 98])\<lparr>dnsProbe := None, runId := Some t, started := True,
        results := [], expectedCount := 2\<rparr>,
      [WindowOpen [98] t 0, WindowOpen [97] t 1])"
proof -
  have q: "sites (demo_state [97, 10, 98]) \<noteq> []" by (simp add: demo_sites)
  have u: "[0..<2] = [0, 1]" by (simp add: upt_rec)
  show ?thesis
    by (simp add: runBenchmark_ok [OF demo_name q] demo_sites demo_env_def u)
qed

lemma demo_start1:
  "runBenchmark (demo_env t) (demo_state [97]) =
     ((demo_state [97])\<lparr>dnsProbe := None, runId := Some t, started := True,
        results := [], expectedCount := 1\<rparr>,
      [WindowOpen [97] t 0])"
proof -
  have q: "sites (demo_state [97]) \<noteq> []" by (simp add: demo_sites)
  show ?thesis
    by (simp add: runBenchmark_ok [OF demo_name q] demo_sites demo_env_def)
qed

section \<open>The claims\<close>


text \<open>
  Claim C3. The average score of the empty sequence is 0; otherwise it is the rounded mean
  of the scores of the items. It is not the score of the mean metrics: for a load time of
  100000 next to an all-zero measurement the first is 500 and the second is 0. A mean of
  999.5 is rounded up to 1000.
\<close>

theorem averageScore_mean:
  "averageScore [] = 0
   \<and> averageScore items =
       (if items = [] then 0
        else round (of_int (sum_list (map scoreOne items)) / of_nat (length items) :: rat))
   \<and> averageScore [measurement 100000 0 0 0, measurement 0 0 0 0] = 500
   \<and> scoreOne (mean_metrics [measurement 100000 0 0 0, measurement 0 0 0 0]) = 0
   \<and> averageScore [measurement 0 0 0 0, measurement 0 0 0 10] = 1000"
  apply (intro conjI)
      apply (simp add: averageScore_def)
     apply (simp add: averageScore_def foldl_add_scores Math_round_eq_round)
    apply code_simp
   apply code_simp
  apply code_simp
  done

text \<open>
  Claim C10. The score is antitone: a measurement that is no larger in each of the four
  metrics has a score that is no smaller.
\<close>

theorem scoreOne_antitone:
  assumes "loadTime m1 \<le> loadTime m2" and "cpuTime m1 \<le> cpuTime m2"
    and "networkLatency m1 \<le> networkLatency m2" and "memoryUsage m1 \<le> memoryUsage m2"
  shows "scoreOne m2 \<le> scoreOne m1"
proof -
  have "weighted_cost m1 \<le> weighted_cost m2"
    using assms by (rule weighted_cost_mono)
  then have "round (1000 - weighted_cost m2) \<le> round (1000 - weighted_cost m1)"
    by (intro round_mono) simp
  then show ?thesis
    by (simp add: scoreOne_eq max.coboundedI2)
qed

text \<open>An instance: scores 895 and 940.\<close>

theorem scoreOne_antitone_witness:
  "loadTime (measurement 100 50 20 10) \<le> loadTime (measurement 200 60 20 30)
   \<and> cpuTime (measurement 100 50 20 10) \<le> cpuTime (measurement 200 60 20 30)
   \<and> networkLatency (measurement 100 50 20 10) \<le> networkLatency (measurement 200 60 20 30)
   \<and> memoryUsage (measurement 100 50 20 10) \<le> memoryUsage (measurement 200 60 20 30)
   \<and> scoreOne (measurement 200 60 20 30) \<le> scoreOne (measurement 100 50 20 10)
   \<and> scoreOne (measurement 200 60 20 30) = 895
   \<and> scoreOne (measurement 100 50 20 10) = 940"
proof -
  have a: "scoreOne (measurement 200 60 20 30) = 895" by code_simp
  have b: "scoreOne (measurement 100 50 20 10) = 940" by code_simp
  show ?thesis
    using scoreOne_antitone [of "measurement 100 50 20 10" "measurement 200 60 20 30"]
    by (simp add: a b) (simp add: measurement_def)
qed

text \<open>
  Claim C5. With a computer name that is empty or consists of white space only,
  \<^verbatim>\<open>runBenchmark\<close> alerts the operator and does nothing else; the same holds with an
  empty site list. In both cases the state is unchanged (no run id, no expected count) and
  no window is opened.
\<close>

theorem runBenchmark_validation:
  "((\<forall>c\<in>set (computerName s). is_ws c) \<longrightarrow>
      runBenchmark e s =
        (s, [Alert (lit ''Please enter a computer name before running the benchmark.'')]))
   \<and> (sites s = [] \<longrightarrow> (\<exists>text. runBenchmark e s = (s, [Alert text])))
   \<and> ((\<exists>c\<in>set (computerName s). \<not> is_ws c) \<and> sites s = [] \<longrightarrow>
        runBenchmark e s = (s, [Alert (lit ''Add at least one test URL in the Site List.'')]))"
proof (intro conjI impI)
  assume "\<forall>c\<in>set (computerName s). is_ws c"
  then have "trim (computerName s) = []" by (simp add: trim_Nil_iff)
  then show "runBenchmark e s =
        (s, [Alert (lit ''Please enter a computer name before running the benchmark.'')])"
    by (simp add: runBenchmark_def)
next
  assume "sites s = []"
  then show "\<exists>text. runBenchmark e s = (s, [Alert text])"
    by (simp add: runBenchmark_def)
next
  assume a: "(\<exists>c\<in>set (computerName s). \<not> is_ws c) \<and> sites s = []"
  then have "trim (computerName s) \<noteq> []" by (simp add: trim_Nil_iff)
  with a show "runBenchmark e s = (s, [Alert (lit ''Add at least one test URL in the Site List.'')])"
    by (simp add: runBenchmark_def)
qed

text \<open>Two instances: a name of a space, a tab and a no-break space; a site list of white space.\<close>

theorem runBenchmark_validation_witness:
  "list_all is_ws (computerName ((demo_state [97])\<lparr>computerName := [32, 9, 160]\<rparr>))
   \<and> runBenchmark (demo_env 7) ((demo_state [97])\<lparr>computerName := [32, 9, 160]\<rparr>) =
       ((demo_state [97])\<lparr>computerName := [32, 9, 160]\<rparr>,
        [Alert (lit ''Please enter a computer name before running the benchmark.'')])
   \<and> list_ex (\<lambda>c. \<not> is_ws c) (computerName (demo_state [32, 10, 9]))
   \<and> sites (demo_state [32, 10, 9]) = []
   \<and> runBenchmark (demo_env 7) (demo_state [32, 10, 9]) =
       (demo_state [32, 10, 9], [Alert (lit ''Add at least one test URL in the Site List.'')])"
proof -
  have a: "\<forall>c\<in>set (computerName ((demo_state [97])\<lparr>computerName := [32, 9, 160]\<rparr>)). is_ws c"
    by (simp add: is_ws_examples)
  have b: "\<exists>c\<in>set (computerName (demo_state [32, 10, 9])). \<not> is_ws c"
    by (simp add: demo_state_def is_ws_examples)
  have c: "sites (demo_state [32, 10, 9]) = []" by (simp add: demo_sites)
  show ?thesis
    using runBenchmark_validation [of "(demo_state [97])\<lparr>computerName := [32, 9, 160]\<rparr>" "demo_env 7"]
      runBenchmark_validation [of "demo_state [32, 10, 9]" "demo_env 7"] a b c
    by (simp add: list_all_iff list_ex_iff)
qed

text \<open>
  Claim C6. An event without data, a message of another type and a message whose run id
  is not the current one leave the state as it is and have no effect. In particular,
  after a new run has started at a clock value different from the previous run id, a
  message that carries the previous run id is dropped.
\<close>

theorem onMessage_discards:
  "((ev = None \<or> (\<exists>m. ev = Some m \<and>
        (mtype m \<noteq> lit ''benchmarkResult'' \<or> mrunId m \<noteq> runId s))) \<longrightarrow>
      onMessage fmt s ev = (s, []))
   \<and> (trim (computerName s) \<noteq> [] \<and> sites s \<noteq> [] \<and> runId s \<noteq> Some (now e)
        \<and> mrunId old = runId s \<longrightarrow>
      onMessage fmt (fst (runBenchmark e s)) (Some old) = (fst (runBenchmark e s), []))"
proof (intro conjI impI)
  assume "ev = None \<or> (\<exists>m. ev = Some m \<and>
        (mtype m \<noteq> lit ''benchmarkResult'' \<or> mrunId m \<noteq> runId s))"
  then show "onMessage fmt s ev = (s, [])"
    by (auto simp add: onMessage_def)
next
  assume a: "trim (computerName s) \<noteq> [] \<and> sites s \<noteq> [] \<and> runId s \<noteq> Some (now e)
        \<and> mrunId old = runId s"
  then have "runId (fst (runBenchmark e s)) = Some (now e)"
    by (simp add: runBenchmark_ok)
  with a have "mrunId old \<noteq> runId (fst (runBenchmark e s))" by simp
  then show "onMessage fmt (fst (runBenchmark e s)) (Some old) = (fst (runBenchmark e s), [])"
    by (simp add: onMessage_def)
qed

text \<open>Instances: an event without data, a message of type ping, and a result of run 1 that arrives after run 2 has started.\<close>

theorem onMessage_discards_witness:
  "onMessage demo_fmt (demo_state [97]) None = (demo_state [97], [])
   \<and> mtype ((demo_msg 1 0 0)\<lparr>mtype := lit ''ping''\<rparr>) \<noteq> lit ''benchmarkResult''
   \<and> onMessage demo_fmt (fst (runBenchmark (demo_env 1) (demo_state [97])))
        (Some ((demo_msg 1 0 0)\<lparr>mtype := lit ''ping''\<rparr>)) =
       (fst (runBenchmark (demo_env 1) (demo_state [97])), [])
   \<and> trim (computerName (fst (runBenchmark (demo_env 1) (demo_state [97])))) \<noteq> []
   \<and> sites (fst (runBenchmark (demo_env 1) (demo_state [97]))) \<noteq> []
   \<and> runId (fst (runBenchmark (demo_env 1) (demo_state [97]))) \<noteq> Some (now (demo_env 2))
   \<and> mrunId (demo_msg 1 0 0) = runId (fst (runBenchmark (demo_env 1) (demo_state [97])))
   \<and> onMessage demo_fmt
        (fst (runBenchmark (demo_env 2) (fst (runBenchmark (demo_env 1) (demo_state [97])))))
        (Some (demo_msg 1 0 0)) =
       (fst (runBenchmark (demo_env 2) (fst (runBenchmark (demo_env 1) (demo_state [97])))), [])"
proof -
  define s where "s = fst (runBenchmark (demo_env 1) (demo_state [97]))"
  have s: "s = (demo_state [97])\<lparr>dnsProbe := None, runId := Some 1, started := True,
        results := [], expectedCount := 1\<rparr>"
    by (simp add: s_def demo_start1)
  have a: "mtype ((demo_msg 1 0 0)\<lparr>mtype := lit ''ping''\<rparr>) \<noteq> lit ''benchmarkResult''"
    by (simp add: lit_def)
  have b: "trim (computerName s) \<noteq> []"
    by (simp add: s trim_Nil_iff demo_state_def is_ws_examples)
  have c: "sites s \<noteq> []"
    by (simp add: s sites_def trim_def demo_state_def is_ws_examples)
  have d: "runId s \<noteq> Some (now (demo_env 2))" by (simp add: s demo_env_def)
  have e: "mrunId (demo_msg 1 0 0) = runId s" by (simp add: s demo_msg_def)
  have "mtype ((demo_msg 1 0 0)\<lparr>mtype := lit ''ping''\<rparr>) \<noteq> lit ''benchmarkResult''
   \<and> onMessage demo_fmt s (Some ((demo_msg 1 0 0)\<lparr>mtype := lit ''ping''\<rparr>)) = (s, [])
   \<and> trim (computerName s) \<noteq> []
   \<and> sites s \<noteq> []
   \<and> runId s \<noteq> Some (now (demo_env 2))
   \<and> mrunId (demo_msg 1 0 0) = runId s
   \<and> onMessage demo_fmt (fst (runBenchmark (demo_env 2) s)) (Some (demo_msg 1 0 0)) =
       (fst (runBenchmark (demo_env 2) s), [])"
    using onMessage_discards [of "Some ((demo_msg 1 0 0)\<lparr>mtype := lit ''ping''\<rparr>)" s
        demo_fmt "demo_env 2" "demo_msg 1 0 0"] a b c d e
    by simp
  moreover have "onMessage demo_fmt (demo_state [97]) None = (demo_state [97], [])"
    using onMessage_discards [of None "demo_state [97]" demo_fmt "demo_env 2" "demo_msg 1 0 0"]
    by simp
  ultimately show ?thesis unfolding s_def by blast
qed

text \<open>
  Claim C7. The listener calls \<^verbatim>\<open>runDnsProbe\<close> exactly when the message completes
  the run and some measurement of the completed run has a load time strictly above 1000.
  When a run completes and the probe is not called, the probe result is cleared.
\<close>

theorem probe_trigger:
  "(RunDnsProbe \<in> set (snd (onMessage fmt s ev)) \<longleftrightarrow>
      (\<exists>m. ev = Some m \<and> mtype m = lit ''benchmarkResult'' \<and> mrunId m = runId s
         \<and> \<not> list_ex (\<lambda>p. index p = index m) (results s)
         \<and> length (results s) + 1 = expectedCount s
         \<and> (\<exists>r\<in>set (results s @ [m]). 1000 < loadTime r)))
   \<and> (completions (snd (onMessage fmt s ev)) \<noteq> []
        \<and> RunDnsProbe \<notin> set (snd (onMessage fmt s ev)) \<longrightarrow>
      dnsProbe (fst (onMessage fmt s ev)) = None)"
  by (cases ev) (auto simp add: onMessage_def Let_def list_ex_iff loadTimeMs_def)

text \<open>Two instances: a run of one site that loads in exactly 1000 ms, and one that loads in 1001 ms.\<close>

theorem probe_trigger_witness:
  "RunDnsProbe \<notin> set (snd (onMessage demo_fmt (fst (runBenchmark (demo_env 1) (demo_state [97])))
        (Some (demo_msg 1 0 1000))))
   \<and> completions (snd (onMessage demo_fmt (fst (runBenchmark (demo_env 1) (demo_state [97])))
        (Some (demo_msg 1 0 1000)))) \<noteq> []
   \<and> dnsProbe (fst (onMessage demo_fmt (fst (runBenchmark (demo_env 1) (demo_state [97])))
        (Some (demo_msg 1 0 1000)))) = None
   \<and> RunDnsProbe \<in> set (snd (onMessage demo_fmt (fst (runBenchmark (demo_env 1) (demo_state [97])))
        (Some (demo_msg 1 0 1001))))"
proof -
  define s where "s = fst (runBenchmark (demo_env 1) (demo_state [97]))"
  have s: "s = (demo_state [97])\<lparr>dnsProbe := None, runId := Some 1, started := True,
        results := [], expectedCount := 1\<rparr>"
    by (simp add: s_def demo_start1)
  have c: "completions (snd (onMessage demo_fmt s (Some (demo_msg 1 0 1000)))) \<noteq> []"
    by (simp add: s onMessage_def Let_def demo_msg_def loadTimeMs_def)
  have "RunDnsProbe \<notin> set (snd (onMessage demo_fmt s (Some (demo_msg 1 0 1000))))
   \<and> completions (snd (onMessage demo_fmt s (Some (demo_msg 1 0 1000)))) \<noteq> []
   \<and> dnsProbe (fst (onMessage demo_fmt s (Some (demo_msg 1 0 1000)))) = None
   \<and> RunDnsProbe \<in> set (snd (onMessage demo_fmt s (Some (demo_msg 1 0 1001))))"
    using probe_trigger [of demo_fmt s "Some (demo_msg 1 0 1000)"]
      probe_trigger [of demo_fmt s "Some (demo_msg 1 0 1001)"] c
    by (simp add: s demo_msg_def)
  then show ?thesis unfolding s_def .
qed

text \<open>
  Claim C1. A run is started from any state with a name that is not blank and a site
  list that is not empty; \<open>base\<close> is one result message of that run for each of its
  \<open>expectedCount\<close> ordinals, and \<open>ms\<close> delivers exactly these messages in any order,
  each at least once and as often as one likes. Then the accumulated results are the
  messages of \<open>base\<close>, as many as expected and with pairwise different ordinals, and the
  completion step (final score, run record, \<^verbatim>\<open>setHistory\<close>) has run exactly once.
\<close>

theorem aggregator_completes_once:
  assumes "trim (computerName s0) \<noteq> []" and "sites s0 \<noteq> []"
    and "mset (shuffle e (sites s0)) = mset (sites s0)"
    and "runBenchmark e s0 = (s, opened)"
    and "distinct (map index base)" and "length base = expectedCount s"
    and "\<forall>m\<in>set base. mtype m = lit ''benchmarkResult'' \<and> mrunId m = Some (now e)"
    and "set ms = set base"
    and "run fmt s (map (\<lambda>m. Message (Some m)) ms) = (s', out)"
  shows "length (results s') = expectedCount s \<and> set (results s') = set base
     \<and> distinct (map index (results s')) \<and> length (completions out) = 1"
proof -
  have len: "length (shuffle e (sites s0)) = length (sites s0)"
    using assms(3) by (rule mset_eq_length)
  have s: "s = s0\<lparr>dnsProbe := None, runId := Some (now e), started := True, results := [],
        expectedCount := min 5 (length (shuffle e (sites s0)))\<rparr>"
    using assms(4) runBenchmark_ok [OF assms(1) assms(2), of e] by simp
  have pos: "0 < expectedCount s" using s len assms(2) by simp
  have rid: "runId s = Some (now e)" and emp: "results s = []" using s by simp_all
  have acc: "\<forall>m\<in>set ms. mtype m = lit ''benchmarkResult'' \<and> mrunId m = runId s"
    using assms(7) assms(8) rid by simp
  have "inj_on index (set base)"
    using assms(5) by (simp add: distinct_map)
  then have inj: "inj_on index (set (results s) \<union> set ms)"
    using emp assms(8) by simp
  have dis: "distinct (results s)" using emp by simp
  note d = deliver_accepted [OF acc inj dis assms(9)]
  have set': "set (results s') = set base" using d emp assms(8) by simp
  have "card (set (results s')) = card (set base)" using set' by simp
  moreover have "card (set (results s')) = length (results s')"
    using d by (intro distinct_card) simp
  moreover have "card (set base) = length base"
    using assms(5) by (intro distinct_card) (simp add: distinct_map)
  ultimately have l: "length (results s') = expectedCount s" using assms(6) by simp
  have "inj_on index (set (results s'))" using set' \<open>inj_on index (set base)\<close> by simp
  then have di: "distinct (map index (results s'))" using d by (simp add: distinct_map)
  have "length (completions out) = 1" using d l pos emp by simp
  with l set' di show ?thesis by simp
qed

text \<open>An instance: a run on two sites at clock value 7, whose two results arrive as five messages.\<close>

theorem aggregator_completes_once_witness:
  "trim (computerName (demo_state [97, 10, 98])) \<noteq> []
   \<and> sites (demo_state [97, 10, 98]) \<noteq> []
   \<and> mset (shuffle (demo_env 7) (sites (demo_state [97, 10, 98]))) =
       mset (sites (demo_state [97, 10, 98]))
   \<and> expectedCount (fst (runBenchmark (demo_env 7) (demo_state [97, 10, 98]))) = 2
   \<and> distinct (map index [demo_msg 7 0 10, demo_msg 7 1 2000])
   \<and> list_all (\<lambda>m. mtype m = lit ''benchmarkResult'' \<and> mrunId m = Some (now (demo_env 7)))
        [demo_msg 7 0 10, demo_msg 7 1 2000]
   \<and> set [demo_msg 7 1 2000, demo_msg 7 1 2000, demo_msg 7 0 10, demo_msg 7 1 2000,
           demo_msg 7 0 10] = set [demo_msg 7 0 10, demo_msg 7 1 2000]
   \<and> length (results (fst (run demo_fmt (fst (runBenchmark (demo_env 7) (demo_state [97, 10, 98])))
        (map (\<lambda>m. Message (Some m))
           [demo_msg 7 1 2000, demo_msg 7 1 2000, demo_msg 7 0 10, demo_msg 7 1 2000,
            demo_msg 7 0 10])))) = 2
   \<and> length (completions (snd (run demo_fmt
        (fst (runBenchmark (demo_env 7) (demo_state [97, 10, 98])))
        (map (\<lambda>m. Message (Some m))
           [demo_msg 7 1 2000, demo_msg 7 1 2000, demo_msg 7 0 10, demo_msg 7 1 2000,
            demo_msg 7 0 10])))) = 1"
proof -
  define s where "s = fst (runBenchmark (demo_env 7) (demo_state [97, 10, 98]))"
  define ms where "ms = [demo_msg 7 1 2000, demo_msg 7 1 2000, demo_msg 7 0 10,
    demo_msg 7 1 2000, demo_msg 7 0 10]"
  define r where "r = run demo_fmt s (map (\<lambda>m. Message (Some m)) ms)"
  have h1: "trim (computerName (demo_state [97, 10, 98])) \<noteq> []" by (rule demo_name)
  have h2: "sites (demo_state [97, 10, 98]) \<noteq> []" by (simp add: demo_sites)
  have h3: "mset (shuffle (demo_env 7) (sites (demo_state [97, 10, 98]))) =
       mset (sites (demo_state [97, 10, 98]))"
    by (simp add: demo_env_def)
  have h4: "runBenchmark (demo_env 7) (demo_state [97, 10, 98]) =
      (s, snd (runBenchmark (demo_env 7) (demo_state [97, 10, 98])))"
    by (simp add: s_def)
  have ec: "expectedCount s = 2" by (simp add: s_def demo_start2)
  have h5: "distinct (map index [demo_msg 7 0 10, demo_msg 7 1 2000])"
    by (simp add: demo_msg_def)
  have h6: "length [demo_msg 7 0 10, demo_msg 7 1 2000] = expectedCount s"
    by (simp add: ec)
  have h7: "\<forall>m\<in>set [demo_msg 7 0 10, demo_msg 7 1 2000].
      mtype m = lit ''benchmarkResult'' \<and> mrunId m = Some (now (demo_env 7))"
    by (simp add: demo_msg_def demo_env_def)
  have h8: "set ms = set [demo_msg 7 0 10, demo_msg 7 1 2000]"
    by (auto simp add: ms_def)
  have h9: "run demo_fmt s (map (\<lambda>m. Message (Some m)) ms) = (fst r, snd r)"
    by (simp add: r_def)
  note t = aggregator_completes_once [OF h1 h2 h3 h4 h5 h6 h7 h8 h9]
  have "trim (computerName (demo_state [97, 10, 98])) \<noteq> []
   \<and> sites (demo_state [97, 10, 98]) \<noteq> []
   \<and> mset (shuffle (demo_env 7) (sites (demo_state [97, 10, 98]))) =
       mset (sites (demo_state [97, 10, 98]))
   \<and> expectedCount s = 2
   \<and> distinct (map index [demo_msg 7 0 10, demo_msg 7 1 2000])
   \<and> list_all (\<lambda>m. mtype m = lit ''benchmarkResult'' \<and> mrunId m = Some (now (demo_env 7)))
        [demo_msg 7 0 10, demo_msg 7 1 2000]
   \<and> set ms = set [demo_msg 7 0 10, demo_msg 7 1 2000]
   \<and> length (results (fst r)) = 2
   \<and> length (completions (snd r)) = 1"
    using h1 h2 h3 ec h5 h7 h8 t by (simp add: list_all_iff)
  then show ?thesis unfolding r_def ms_def s_def .
qed

text \<open>
  Claim C4. Over any sequence of clicks, messages, probe results and edits, the history
  changes only by completions: it is the five newest entries of the completed run records,
  newest first, followed by the older history. So it has at most five entries after a
  completion (and always, when it had at most five at the start), and after six
  completions it consists of the records of the last five runs, newest first: the record
  of the first of the six runs is gone.
\<close>

theorem history_bounded:
  assumes "run fmt s evs = (s', out)"
  shows "history s' =
       (if completions out = [] then history s
        else take 5 (rev (completions out) @ history s))
     \<and> (completions out \<noteq> [] \<or> length (history s) \<le> 5 \<longrightarrow> length (history s') \<le> 5)
     \<and> (length (completions out) = 6 \<longrightarrow>
          history s' = rev (tl (completions out))
          \<and> (hd (completions out) \<notin> set (tl (completions out)) \<longrightarrow>
               hd (completions out) \<notin> set (history s')))"
proof -
  have h: "history s' =
       (if completions out = [] then history s
        else take 5 (rev (completions out) @ history s))"
    using assms by (rule run_history)
  have b: "completions out \<noteq> [] \<or> length (history s) \<le> 5 \<longrightarrow> length (history s') \<le> 5"
    using h by auto
  have c: "history s' = rev (tl (completions out))" if six: "length (completions out) = 6"
  proof -
    obtain r rs where rs: "completions out = r # rs" using six by (cases "completions out") auto
    then have "length rs = 5" using six by simp
    then show ?thesis using h rs by simp
  qed
  from h b c show ?thesis by auto
qed

text \<open>An instance: six runs on one site, started at the clock values 1 to 6.\<close>

theorem history_bounded_witness:
  "length (completions (snd (run demo_fmt (demo_state [97])
       (concat (map demo_round [1, 2, 3, 4, 5, 6]))))) = 6
   \<and> hd (completions (snd (run demo_fmt (demo_state [97])
       (concat (map demo_round [1, 2, 3, 4, 5, 6]))))) = demo_record 1
   \<and> demo_record 1 \<notin> set (tl (completions (snd (run demo_fmt (demo_state [97])
       (concat (map demo_round [1, 2, 3, 4, 5, 6]))))))
   \<and> history (fst (run demo_fmt (demo_state [97])
       (concat (map demo_round [1, 2, 3, 4, 5, 6])))) =
     [demo_record 6, demo_record 5, demo_record 4, demo_record 3, demo_record 2]
   \<and> demo_record 1 \<notin> set (history (fst (run demo_fmt (demo_state [97])
       (concat (map demo_round [1, 2, 3, 4, 5, 6])))))
   \<and> length (history (fst (run demo_fmt (demo_state [97])
       (concat (map demo_round [1, 2, 3, 4, 5, 6]))))) \<le> 5"
proof -
  define r where "r = run demo_fmt (demo_state [97]) (concat (map demo_round [1, 2, 3, 4, 5, 6]))"
  have c: "completions (snd r) =
      [demo_record 1, demo_record 2, demo_record 3, demo_record 4, demo_record 5, demo_record 6]"
    unfolding r_def
    using demo_rounds_completions [of "demo_state [97]" "[1, 2, 3, 4, 5, 6]"]
    by (simp add: demo_state_def)
  have d: "demo_record 1 \<notin>
      set [demo_record 2, demo_record 3, demo_record 4, demo_record 5, demo_record 6]"
    by (simp add: demo_record_def)
  have e: "run demo_fmt (demo_state [97]) (concat (map demo_round [1, 2, 3, 4, 5, 6])) =
      (fst r, snd r)"
    by (simp add: r_def)
  have "length (completions (snd r)) = 6
   \<and> hd (completions (snd r)) = demo_record 1
   \<and> demo_record 1 \<notin> set (tl (completions (snd r)))
   \<and> history (fst r) =
     [demo_record 6, demo_record 5, demo_record 4, demo_record 3, demo_record 2]
   \<and> demo_record 1 \<notin> set (history (fst r))
   \<and> length (history (fst r)) \<le> 5"
    using history_bounded [OF e] d by (simp add: c)
  then show ?thesis unfolding r_def .
qed






end
